theory Spec2Isabelle
  imports Main
begin

section \<open>JavaScript values, errors and dates\<close>

text \<open>
  The values that flow through the cache: what \<^verbatim>\<open>JSON.parse\<close> can produce, plus
  \<^verbatim>\<open>undefined\<close> (a missing property). Numbers are integers here; fractional
  numbers, NaN and the infinities are outside the model. An object is the list of its
  own properties.
\<close>

datatype jsval =
    JUndefined
  | JNull
  | JBool bool
  | JNum int
  | JStr string
  | JArr "jsval list"
  | JObj "(string \<times> jsval) list"

text \<open>The test of \<^verbatim>\<open>if (cachedValue)\<close>: JavaScript's ToBoolean.\<close>

fun truthy :: "jsval \<Rightarrow> bool" where
  "truthy JUndefined = False"
| "truthy JNull = False"
| "truthy (JBool b) = b"
| "truthy (JNum n) = (n \<noteq> 0)"
| "truthy (JStr s) = (s \<noteq> [])"
| "truthy (JArr xs) = True"
| "truthy (JObj kvs) = True"

datatype error = SyntaxError | TypeError | RangeError | Reason string

text \<open>The text of an error inside a template string.\<close>

fun error_text :: "error \<Rightarrow> string" where
  "error_text SyntaxError = ''SyntaxError''"
| "error_text TypeError = ''TypeError''"
| "error_text RangeError = ''RangeError''"
| "error_text (Reason r) = r"

text \<open>
  Reading the property \<^verbatim>\<open>expiration\<close> or \<^verbatim>\<open>value\<close> of a parsed value:
  a TypeError on \<^verbatim>\<open>null\<close> and \<^verbatim>\<open>undefined\<close>, the property of an object,
  and \<^verbatim>\<open>undefined\<close> on a number, a boolean, a string or an array (which have
  neither property).
\<close>

fun get_prop :: "jsval \<Rightarrow> string \<Rightarrow> error + jsval" where
  "get_prop JUndefined k = Inl TypeError"
| "get_prop JNull k = Inl TypeError"
| "get_prop (JObj kvs) k = Inr (case map_of kvs k of None \<Rightarrow> JUndefined | Some v \<Rightarrow> v)"
| "get_prop (JBool b) k = Inr JUndefined"
| "get_prop (JNum n) k = Inr JUndefined"
| "get_prop (JStr s) k = Inr JUndefined"
| "get_prop (JArr xs) k = Inr JUndefined"

text \<open>
  A \<^verbatim>\<open>Date\<close>: a time value in milliseconds since the epoch, or the Invalid Date
  (time value NaN).
\<close>

datatype date = Time int | InvalidDate

definition time_clip :: "int \<Rightarrow> date" where
  "time_clip t = (if \<bar>t\<bar> \<le> 8640000000000000 then Time t else InvalidDate)"

text \<open>\<^verbatim>\<open>a > b\<close> on two dates compares the time values; with a NaN it is false.\<close>

fun date_gt :: "date \<Rightarrow> date \<Rightarrow> bool" where
  "date_gt (Time a) (Time b) = (b < a)"
| "date_gt InvalidDate d = False"
| "date_gt (Time a) InvalidDate = False"

text \<open>
  \<^verbatim>\<open>add(date, { seconds })\<close> of date-fns, for a valid date and a whole number of
  seconds: the date that many seconds later, or the Invalid Date out of range.
\<close>

definition add_seconds :: "int \<Rightarrow> int \<Rightarrow> date" where
  "add_seconds now secs = time_clip (now + secs * 1000)"

section \<open>The platform\<close>

text \<open>
  The functions of the host that the cache manager calls and that are not part of the
  repository. They are parameters of the model:
  \<^item> \<open>JSON_parse\<close>: \<^verbatim>\<open>JSON.parse\<close>, \<open>None\<close> when it throws;
  \<^item> \<open>JSON_stringify\<close>: \<^verbatim>\<open>JSON.stringify\<close>;
  \<^item> \<open>Date_new\<close>: \<^verbatim>\<open>new Date(x)\<close> for a parsed value \<open>x\<close>, \<open>Inl\<close> when it throws;
  \<^item> \<open>toISOString\<close>: \<^verbatim>\<open>Date.prototype.toISOString\<close> on a valid time value;
  \<^item> \<open>format_time\<close>: \<^verbatim>\<open>format(d, "HH:mm:ss")\<close> of date-fns on a valid date;
  \<^item> \<open>native_idle\<close>: whether \<^verbatim>\<open>window.requestIdleCallback\<close> is a function.
\<close>

record platform =
  JSON_parse :: "string \<Rightarrow> jsval option"
  JSON_stringify :: "jsval \<Rightarrow> string"
  Date_new :: "jsval \<Rightarrow> error + date"
  toISOString :: "int \<Rightarrow> string"
  format_time :: "int \<Rightarrow> string"
  native_idle :: bool

text \<open>
  \<^verbatim>\<open>format\<close> of date-fns (the versions that export \<^verbatim>\<open>add\<close>) throws a RangeError
  on the Invalid Date.
\<close>

fun format :: "platform \<Rightarrow> date \<Rightarrow> error + string" where
  "format P (Time t) = Inr (format_time P t)"
| "format P InvalidDate = Inl RangeError"

section \<open>The cache manager and its environment\<close>

text \<open>How a promise returned by the fetch function settles.\<close>

datatype settled = Fulfilled jsval | Rejected error

text \<open>A callback registered by \<^verbatim>\<open>requestIdleCallbackFn\<close>, with the due time of the fallback timer.\<close>

datatype scheduled_callback = IdleCallback | TimerCallback int

text \<open>
  The fields of a \<^verbatim>\<open>CacheManager\<close> (\<open>key\<close>, \<open>expirationSeconds\<close>,
  \<open>refreshScheduled\<close>, \<open>onBackgroundRefresh\<close>, \<open>onLog\<close>) and the environment
  it acts on: the local storage, the clock that \<^verbatim>\<open>new Date()\<close> reads, the callbacks
  registered with the scheduler and not yet run, the number of invocations of the fetch
  function, the lines given to \<^verbatim>\<open>onLog\<close> and to the console, and the values given to
  \<^verbatim>\<open>onBackgroundRefresh\<close>. An observer is a function that says, for each value,
  whether it throws (\<open>Some e\<close>) or returns (\<open>None\<close>); \<open>onLog\<close> says whether a log
  callback was supplied.
\<close>

record state =
  key :: string
  expirationSeconds :: int
  refreshScheduled :: bool
  onBackgroundRefresh :: "(jsval \<Rightarrow> error option) option"
  onLog :: bool
  localStorage :: "string \<rightharpoonup> string"
  clock :: int
  callbacks :: "scheduled_callback list"
  fetch_calls :: nat
  onLog_lines :: "string list"
  console_lines :: "string list"
  observed :: "jsval list"

text \<open>
  What a call has done when control comes back to the event loop: it has returned, it
  has thrown, or it is suspended at an \<^verbatim>\<open>await\<close>.
\<close>

datatype 'a step = Return 'a | Throw error | Await

text \<open>
  \<^verbatim>\<open>log\<close>: to the log callback when one was supplied, to the console otherwise.
  Both are taken to return normally.
\<close>

definition log :: "string \<Rightarrow> state \<Rightarrow> state" where
  "log message s =
     (if onLog s then s\<lparr>onLog_lines := onLog_lines s @ [message]\<rparr>
      else s\<lparr>console_lines := console_lines s @ [message]\<rparr>)"

definition console_error :: "string \<Rightarrow> state \<Rightarrow> state" where
  "console_error message s = s\<lparr>console_lines := console_lines s @ [message]\<rparr>"

definition cacheEntry :: "string \<Rightarrow> jsval \<Rightarrow> jsval" where
  "cacheEntry stamp d = JObj [(''expiration'', JStr stamp), (''value'', d)]"

text \<open>
  \<^verbatim>\<open>setCache\<close>: \<^verbatim>\<open>toISOString\<close> throws a RangeError on the Invalid Date, before
  anything is written.
\<close>

definition setCache :: "platform \<Rightarrow> jsval \<Rightarrow> state \<Rightarrow> error + state" where
  "setCache P d s =
     (case add_seconds (clock s) (expirationSeconds s) of
        InvalidDate \<Rightarrow> Inl RangeError
      | Time e \<Rightarrow>
          Inr (log (''Cache updated. New expiration: '' @ format_time P e)
                 (s\<lparr>localStorage :=
                      (localStorage s)(key s \<mapsto> JSON_stringify P (cacheEntry (toISOString P e) d))\<rparr>)))"

text \<open>
  \<^verbatim>\<open>requestIdleCallbackFn\<close>: the native idle callback, or a timer of 200 ms. Either
  way the callback is registered once, to be run later.
\<close>

definition requestIdleCallbackFn :: "platform \<Rightarrow> state \<Rightarrow> state" where
  "requestIdleCallbackFn P s =
     s\<lparr>callbacks := callbacks s @
          [if native_idle P then IdleCallback else TimerCallback (clock s + 200)]\<rparr>"

definition scheduleRefresh :: "platform \<Rightarrow> state \<Rightarrow> state" where
  "scheduleRefresh P s =
     (if refreshScheduled s then s
      else requestIdleCallbackFn P (s\<lparr>refreshScheduled := True\<rparr>))"

text \<open>
  The callback given to the scheduler, in two parts: up to the \<^verbatim>\<open>await\<close> of the
  fetch, and from the moment the fetch has settled. The second part returns whether the
  callback's own promise is rejected (\<open>Some e\<close>) or fulfilled (\<open>None\<close>).
\<close>

definition refresh_begin :: "state \<Rightarrow> state" where
  "refresh_begin s =
     (log ''Background refresh starting.'' s)\<lparr>fetch_calls := Suc (fetch_calls s)\<rparr>"

definition notify :: "jsval \<Rightarrow> state \<Rightarrow> error + state" where
  "notify d s =
     (case onBackgroundRefresh s of
        None \<Rightarrow> Inr s
      | Some f \<Rightarrow>
          (case f d of
             Some e \<Rightarrow> Inl e
           | None \<Rightarrow> Inr (s\<lparr>observed := observed s @ [d]\<rparr>)))"

definition refresh_try :: "platform \<Rightarrow> settled \<Rightarrow> state \<Rightarrow> error option \<times> state" where
  "refresh_try P r s =
     (case r of
        Rejected e \<Rightarrow> (Some e, s)
      | Fulfilled freshData \<Rightarrow>
          (case setCache P freshData s of
             Inl e \<Rightarrow> (Some e, s)
           | Inr s1 \<Rightarrow>
               (let s2 = log ''Background refresh completed.'' s1
                in case notify freshData s2 of
                     Inl e \<Rightarrow> (Some e, s2)
                   | Inr s3 \<Rightarrow> (None, s3))))"

definition refresh_catch :: "error \<Rightarrow> state \<Rightarrow> state" where
  "refresh_catch e s =
     console_error (''Error during background refresh: '' @ error_text e)
       (log (''Error during background refresh: '' @ error_text e) s)"

definition refresh_resume :: "platform \<Rightarrow> settled \<Rightarrow> state \<Rightarrow> error option \<times> state" where
  "refresh_resume P r s =
     (case refresh_try P r s of
        (Some e, s1) \<Rightarrow> (None, (refresh_catch e s1)\<lparr>refreshScheduled := False\<rparr>)
      | (None, s1) \<Rightarrow> (None, s1\<lparr>refreshScheduled := False\<rparr>))"

text \<open>
  The \<^verbatim>\<open>try\<close> block of \<^verbatim>\<open>getData\<close>: it gives the cached value, the expiration
  and the state as they stand when the block ends or throws. An assignment made before a
  throw stays.
\<close>

definition read_entry :: "platform \<Rightarrow> string \<Rightarrow> state \<Rightarrow> jsval \<times> date \<times> state" where
  "read_entry P cacheItem s =
     (case JSON_parse P cacheItem of
        None \<Rightarrow> (JNull, Time (clock s), log ''Invalid cache found.'' s)
      | Some cacheJSON \<Rightarrow>
          (case get_prop cacheJSON ''expiration'' of
             Inl e \<Rightarrow> (JNull, Time (clock s), log ''Invalid cache found.'' s)
           | Inr x \<Rightarrow>
               (case Date_new P x of
                  Inl e \<Rightarrow> (JNull, Time (clock s), log ''Invalid cache found.'' s)
                | Inr expiration \<Rightarrow>
                    (case get_prop cacheJSON ''value'' of
                       Inl e \<Rightarrow> (JNull, expiration, log ''Invalid cache found.'' s)
                     | Inr cachedValue \<Rightarrow>
                         (case format P expiration of
                            Inl e \<Rightarrow> (cachedValue, expiration, log ''Invalid cache found.'' s)
                          | Inr txt \<Rightarrow>
                              (cachedValue, expiration,
                               log (''Cache hit. Returning cached data. Expiration: '' @ txt) s))))))"

text \<open>The first statement of \<^verbatim>\<open>getData\<close>: a reload removes the item and logs it.\<close>

definition clear_on_reload :: "bool \<Rightarrow> state \<Rightarrow> state" where
  "clear_on_reload reload s =
     (if reload
      then log ''Reload requested. Cache cleared.''
             (s\<lparr>localStorage := (localStorage s)(key s := None)\<rparr>)
      else s)"

text \<open>
  The lookup: \<^verbatim>\<open>cachedValue\<close> starts as \<^verbatim>\<open>null\<close> and \<^verbatim>\<open>expiration\<close>
  as the current time; \<^verbatim>\<open>if (cacheItem)\<close> skips a missing item and the empty
  string.
\<close>

definition lookup :: "platform \<Rightarrow> state \<Rightarrow> jsval \<times> date \<times> state" where
  "lookup P s =
     (case localStorage s (key s) of
        None \<Rightarrow> (JNull, Time (clock s), s)
      | Some cacheItem \<Rightarrow>
          (if cacheItem = [] then (JNull, Time (clock s), s)
           else read_entry P cacheItem s))"

text \<open>\<^verbatim>\<open>getData\<close> up to its first return or \<^verbatim>\<open>await\<close>.\<close>

definition getData_begin :: "platform \<Rightarrow> bool \<Rightarrow> state \<Rightarrow> jsval step \<times> state" where
  "getData_begin P reload s =
     (case lookup P (clear_on_reload reload s) of
        (cachedValue, expiration, s2) \<Rightarrow>
          (if truthy cachedValue then
             (if date_gt (Time (clock s2)) expiration then
                (case format P expiration of
                   Inl e \<Rightarrow> (Throw e, s2)
                 | Inr txt \<Rightarrow>
                     (Return cachedValue,
                      scheduleRefresh P
                        (log (''Cache expired (expired at: '' @ txt
                              @ ''). Scheduling background refresh.'') s2)))
              else (Return cachedValue, s2))
           else (Await, s2\<lparr>fetch_calls := Suc (fetch_calls s2)\<rparr>)))"

text \<open>\<^verbatim>\<open>getData\<close> from the moment the awaited fetch has settled.\<close>

definition getData_resume :: "platform \<Rightarrow> settled \<Rightarrow> state \<Rightarrow> (error + jsval) \<times> state" where
  "getData_resume P r s =
     (case r of
        Rejected e \<Rightarrow> (Inl e, s)
      | Fulfilled freshData \<Rightarrow>
          (case setCache P freshData s of
             Inl e \<Rightarrow> (Inl e, s)
           | Inr s1 \<Rightarrow> (Inr freshData, s1)))"

text \<open>
  A whole call of \<^verbatim>\<open>getData\<close> in which the fetch, if it is awaited, settles as \<open>r\<close>
  after \<open>dt\<close> milliseconds and nothing else runs in between.
\<close>

definition getData :: "platform \<Rightarrow> bool \<Rightarrow> nat \<Rightarrow> settled \<Rightarrow> state \<Rightarrow> (error + jsval) \<times> state" where
  "getData P reload dt r s =
     (case getData_begin P reload s of
        (Return v, s1) \<Rightarrow> (Inr v, s1)
      | (Throw e, s1) \<Rightarrow> (Inl e, s1)
      | (Await, s1) \<Rightarrow> getData_resume P r (s1\<lparr>clock := clock s1 + int dt\<rparr>))"

text \<open>The decimal text of a number inside a template string.\<close>

definition digit_char :: "nat \<Rightarrow> char" where
  "digit_char d = ''0123456789'' ! (d mod 10)"

function show_nat :: "nat \<Rightarrow> string" where
  "show_nat n = (if n < 10 then [digit_char n] else show_nat (n div 10) @ [digit_char n])"
  by pat_completeness auto
termination
  by (relation "measure (\<lambda>n. n)") auto

definition show_int :: "int \<Rightarrow> string" where
  "show_int i = (if i < 0 then CHR ''-'' # show_nat (nat (- i)) else show_nat (nat i))"

definition updateExpiration :: "int \<Rightarrow> state \<Rightarrow> state" where
  "updateExpiration newExpirationSeconds s =
     log (''Expiration seconds updated to '' @ show_int newExpirationSeconds)
       (s\<lparr>expirationSeconds := newExpirationSeconds\<rparr>)"

section \<open>A reference platform\<close>

text \<open>
  One platform on which the model runs, for the examples: a JSON codec for the values of
  \<open>jsval\<close> (whitespace between tokens, the escapes of the quote and the backslash,
  whole numbers), the ISO timestamps of \<^verbatim>\<open>toISOString\<close> with the proleptic
  Gregorian calendar, and \<^verbatim>\<open>new Date\<close> reading exactly those timestamps. It
  is one instance of the parameters, not a description of every browser: what it takes for
  an Invalid Date (any other text, an array, an object) a browser may read as a date.
\<close>

definition is_digit :: "char \<Rightarrow> bool" where
  "is_digit c = (c \<in> set ''0123456789'')"

definition digit_val :: "char \<Rightarrow> nat" where
  "digit_val c = of_char c - 48"

fun join :: "string \<Rightarrow> string list \<Rightarrow> string" where
  "join sep [] = []"
| "join sep [x] = x"
| "join sep (x # y # ys) = x @ sep @ join sep (y # ys)"

fun escape :: "string \<Rightarrow> string" where
  "escape [] = []"
| "escape (c # cs) =
     (if c = CHR 0x22 \<or> c = CHR 0x5C then CHR 0x5C # c # escape cs else c # escape cs)"

definition quote :: "string \<Rightarrow> string" where
  "quote s = CHR 0x22 # escape s @ [CHR 0x22]"

fun ref_stringify :: "jsval \<Rightarrow> string" where
  "ref_stringify JUndefined = ''null''"
| "ref_stringify JNull = ''null''"
| "ref_stringify (JBool b) = (if b then ''true'' else ''false'')"
| "ref_stringify (JNum n) = show_int n"
| "ref_stringify (JStr s) = quote s"
| "ref_stringify (JArr xs) = ''['' @ join '','' (map ref_stringify xs) @ '']''"
| "ref_stringify (JObj kvs) =
     ''{'' @ join '',''
        (map (\<lambda>kv. quote (fst kv) @ '':'' @ ref_stringify (snd kv))
           (filter (\<lambda>kv. snd kv \<noteq> JUndefined) kvs)) @ ''}''"

definition is_ws :: "char \<Rightarrow> bool" where
  "is_ws c = (c = CHR '' '' \<or> c = CHR 0x09 \<or> c = CHR 0x0A \<or> c = CHR 0x0D)"

fun skip_ws :: "string \<Rightarrow> string" where
  "skip_ws [] = []"
| "skip_ws (c # cs) = (if is_ws c then skip_ws cs else c # cs)"

fun p_string :: "string \<Rightarrow> string \<Rightarrow> (string \<times> string) option" where
  "p_string acc [] = None"
| "p_string acc [c] = (if c = CHR 0x22 then Some (rev acc, []) else None)"
| "p_string acc (c # d # cs) =
     (if c = CHR 0x22 then Some (rev acc, d # cs)
      else if c = CHR 0x5C then
        (if d = CHR 0x22 \<or> d = CHR 0x5C then p_string (d # acc) cs else None)
      else p_string (c # acc) (d # cs))"

fun p_digits :: "nat \<Rightarrow> string \<Rightarrow> nat \<times> string" where
  "p_digits acc [] = (acc, [])"
| "p_digits acc (c # cs) =
     (if is_digit c then p_digits (acc * 10 + digit_val c) cs else (acc, c # cs))"

definition p_number :: "string \<Rightarrow> (int \<times> string) option" where
  "p_number cs =
     (case cs of
        [] \<Rightarrow> None
      | c # r \<Rightarrow>
          (if \<not> is_digit c then None
           else if c = CHR ''0'' then
             (case r of
                [] \<Rightarrow> Some (0, [])
              | d # r' \<Rightarrow> if is_digit d then None else Some (0, r))
           else (case p_digits 0 cs of (k, r') \<Rightarrow> Some (int k, r'))))"

fun p_value :: "unit list \<Rightarrow> string \<Rightarrow> (jsval \<times> string) option"
  and p_elements :: "unit list \<Rightarrow> string \<Rightarrow> (jsval list \<times> string) option"
  and p_members :: "unit list \<Rightarrow> string \<Rightarrow> ((string \<times> jsval) list \<times> string) option"
where
  "p_value [] cs = None"
| "p_value (u # fuel) cs =
     (case skip_ws cs of
        [] \<Rightarrow> None
      | c # r \<Rightarrow>
          (if c = CHR 0x22 then
             (case p_string [] r of None \<Rightarrow> None | Some (s, r') \<Rightarrow> Some (JStr s, r'))
           else if c = CHR ''['' then
             (case skip_ws r of
                [] \<Rightarrow> None
              | d # r' \<Rightarrow>
                  if d = CHR '']'' then Some (JArr [], r')
                  else (case p_elements fuel (d # r') of
                          None \<Rightarrow> None
                        | Some (vs, r'') \<Rightarrow> Some (JArr vs, r'')))
           else if c = CHR ''{'' then
             (case skip_ws r of
                [] \<Rightarrow> None
              | d # r' \<Rightarrow>
                  if d = CHR ''}'' then Some (JObj [], r')
                  else (case p_members fuel (d # r') of
                          None \<Rightarrow> None
                        | Some (kvs, r'') \<Rightarrow> Some (JObj kvs, r'')))
           else if c = CHR ''-'' then
             (case p_number r of None \<Rightarrow> None | Some (k, r') \<Rightarrow> Some (JNum (- k), r'))
           else if is_digit c then
             (case p_number (c # r) of None \<Rightarrow> None | Some (k, r') \<Rightarrow> Some (JNum k, r'))
           else if take 4 (c # r) = ''null'' then Some (JNull, drop 3 r)
           else if take 4 (c # r) = ''true'' then Some (JBool True, drop 3 r)
           else if take 5 (c # r) = ''false'' then Some (JBool False, drop 4 r)
           else None))"
| "p_elements [] cs = None"
| "p_elements (u # fuel) cs =
     (case p_value fuel cs of
        None \<Rightarrow> None
      | Some (v, r) \<Rightarrow>
          (case skip_ws r of
             [] \<Rightarrow> None
           | c # r' \<Rightarrow>
               if c = CHR '']'' then Some ([v], r')
               else if c = CHR '','' then
                 (case p_elements fuel r' of
                    None \<Rightarrow> None
                  | Some (vs, r'') \<Rightarrow> Some (v # vs, r''))
               else None))"
| "p_members [] cs = None"
| "p_members (u # fuel) cs =
     (case skip_ws cs of
        [] \<Rightarrow> None
      | q # r0 \<Rightarrow>
          if q \<noteq> CHR 0x22 then None
          else
            (case p_string [] r0 of
               None \<Rightarrow> None
             | Some (k, r1) \<Rightarrow>
                 (case skip_ws r1 of
                    [] \<Rightarrow> None
                  | c # r2 \<Rightarrow>
                      if c \<noteq> CHR '':'' then None
                      else
                        (case p_value fuel r2 of
                           None \<Rightarrow> None
                         | Some (v, r3) \<Rightarrow>
                             (case skip_ws r3 of
                                [] \<Rightarrow> None
                              | e # r4 \<Rightarrow>
                                  if e = CHR ''}'' then Some ([(k, v)], r4)
                                  else if e = CHR '','' then
                                    (case p_members fuel r4 of
                                       None \<Rightarrow> None
                                     | Some (kvs, r5) \<Rightarrow> Some ((k, v) # kvs, r5))
                                  else None)))))"

definition ref_parse :: "string \<Rightarrow> jsval option" where
  "ref_parse s =
     (case p_value (map (\<lambda>c. ()) (s @ s @ ''xx'')) s of
        None \<Rightarrow> None
      | Some (v, r) \<Rightarrow> if skip_ws r = [] then Some v else None)"

definition civil_from_days :: "int \<Rightarrow> int \<times> int \<times> int" where
  "civil_from_days z0 =
     (let z = z0 + 719468;
          era = z div 146097;
          doe = z mod 146097;
          yoe = (doe - doe div 1460 + doe div 36524 - doe div 146096) div 365;
          doy = doe - (365 * yoe + yoe div 4 - yoe div 100);
          mp = (5 * doy + 2) div 153;
          d = doy - (153 * mp + 2) div 5 + 1;
          m = (if mp < 10 then mp + 3 else mp - 9);
          y = yoe + era * 400
      in (if m \<le> 2 then y + 1 else y, m, d))"

definition days_from_civil :: "int \<Rightarrow> int \<Rightarrow> int \<Rightarrow> int" where
  "days_from_civil y0 m d =
     (let y = (if m \<le> 2 then y0 - 1 else y0);
          era = y div 400;
          yoe = y - era * 400;
          doy = (153 * (if 2 < m then m - 3 else m + 9) + 2) div 5 + d - 1;
          doe = yoe * 365 + yoe div 4 - yoe div 100 + doy
      in era * 146097 + doe - 719468)"

definition pad2 :: "int \<Rightarrow> string" where
  "pad2 n = [digit_char (nat n div 10), digit_char (nat n)]"

definition pad3 :: "int \<Rightarrow> string" where
  "pad3 n = [digit_char (nat n div 100), digit_char (nat n div 10), digit_char (nat n)]"

definition pad4 :: "int \<Rightarrow> string" where
  "pad4 n = [digit_char (nat n div 1000), digit_char (nat n div 100),
             digit_char (nat n div 10), digit_char (nat n)]"

definition ref_toISOString :: "int \<Rightarrow> string" where
  "ref_toISOString t =
     (let ms = t mod 86400000
      in case civil_from_days (t div 86400000) of
           (y, m, d) \<Rightarrow>
             (if 0 \<le> y \<and> y \<le> 9999 then pad4 y
              else (if y < 0 then ''-'' else ''+'') @ pad2 (\<bar>y\<bar> div 10000) @ pad4 (\<bar>y\<bar> mod 10000))
             @ ''-'' @ pad2 m @ ''-'' @ pad2 d @ ''T'' @ pad2 (ms div 3600000) @ '':''
             @ pad2 (ms div 60000 mod 60) @ '':'' @ pad2 (ms div 1000 mod 60) @ ''.''
             @ pad3 (ms mod 1000) @ ''Z'')"

fun number_of :: "nat \<Rightarrow> string \<Rightarrow> int option" where
  "number_of acc [] = Some (int acc)"
| "number_of acc (c # cs) =
     (if is_digit c then number_of (acc * 10 + digit_val c) cs else None)"

definition days_in_month :: "int \<Rightarrow> int \<Rightarrow> int" where
  "days_in_month y m =
     (if m = 2 then (if y mod 4 = 0 \<and> (y mod 100 \<noteq> 0 \<or> y mod 400 = 0) then 29 else 28)
      else if m = 4 \<or> m = 6 \<or> m = 9 \<or> m = 11 then 30 else 31)"

definition ref_Date_parse :: "string \<Rightarrow> date" where
  "ref_Date_parse s =
     (if length s = 24 \<and> s ! 4 = CHR ''-'' \<and> s ! 7 = CHR ''-'' \<and> s ! 10 = CHR ''T''
         \<and> s ! 13 = CHR '':'' \<and> s ! 16 = CHR '':'' \<and> s ! 19 = CHR ''.'' \<and> s ! 23 = CHR ''Z''
      then
        (case (number_of 0 (take 4 s), number_of 0 (take 2 (drop 5 s)),
               number_of 0 (take 2 (drop 8 s)), number_of 0 (take 2 (drop 11 s)),
               number_of 0 (take 2 (drop 14 s)), number_of 0 (take 2 (drop 17 s)),
               number_of 0 (take 3 (drop 20 s))) of
           (Some y, Some m, Some d, Some hh, Some mi, Some ss, Some ms) \<Rightarrow>
             (if 1 \<le> m \<and> m \<le> 12 \<and> 1 \<le> d \<and> d \<le> days_in_month y m
                 \<and> hh \<le> 23 \<and> mi \<le> 59 \<and> ss \<le> 59
              then time_clip (days_from_civil y m d * 86400000
                              + hh * 3600000 + mi * 60000 + ss * 1000 + ms)
              else InvalidDate)
         | _ \<Rightarrow> InvalidDate)
      else InvalidDate)"

definition ref_Date_new :: "jsval \<Rightarrow> error + date" where
  "ref_Date_new x =
     (case x of
        JUndefined \<Rightarrow> Inr InvalidDate
      | JNull \<Rightarrow> Inr (Time 0)
      | JBool b \<Rightarrow> Inr (Time (if b then 1 else 0))
      | JNum n \<Rightarrow> Inr (time_clip n)
      | JStr s \<Rightarrow> Inr (ref_Date_parse s)
      | JArr xs \<Rightarrow> Inr InvalidDate
      | JObj kvs \<Rightarrow> Inr InvalidDate)"

text \<open>The time of day in UTC.\<close>

definition ref_format_time :: "int \<Rightarrow> string" where
  "ref_format_time t =
     (let ms = t mod 86400000
      in pad2 (ms div 3600000) @ '':'' @ pad2 (ms div 60000 mod 60) @ '':''
         @ pad2 (ms div 1000 mod 60))"

definition ref_platform :: platform where
  "ref_platform =
     \<lparr>JSON_parse = ref_parse, JSON_stringify = ref_stringify, Date_new = ref_Date_new,
      toISOString = ref_toISOString, format_time = ref_format_time, native_idle = True\<rparr>"

section \<open>Vocabulary of the statements, and sample states\<close>

text \<open>What a call leaves alone: the manager's key and TTL, the flag, the store, the clock, the queue, the fetch count.\<close>

definition same_core :: "state \<Rightarrow> state \<Rightarrow> bool" where
  "same_core a b =
     (key a = key b \<and> expirationSeconds a = expirationSeconds b
      \<and> refreshScheduled a = refreshScheduled b \<and> localStorage a = localStorage b
      \<and> clock a = clock b \<and> callbacks a = callbacks b \<and> fetch_calls a = fetch_calls b)"

text \<open>
  The platform reads back the entry it wrote for the value \<open>v\<close> with the expiration
  \<open>e\<close>: \<^verbatim>\<open>JSON.parse\<close> inverts \<^verbatim>\<open>JSON.stringify\<close> on it (this is what
  makes \<open>v\<close> JSON-serializable), the text is not empty, and \<^verbatim>\<open>new Date\<close> reads
  the timestamp of \<^verbatim>\<open>toISOString\<close>.
\<close>

definition round_trips :: "platform \<Rightarrow> int \<Rightarrow> jsval \<Rightarrow> bool" where
  "round_trips P e v =
     (JSON_parse P (JSON_stringify P (cacheEntry (toISOString P e) v))
        = Some (cacheEntry (toISOString P e) v)
      \<and> JSON_stringify P (cacheEntry (toISOString P e) v) \<noteq> []
      \<and> Date_new P (JStr (toISOString P e)) = Inr (Time e))"

text \<open>
  The manager of the sample's component before its first call: the key
  \<^verbatim>\<open>MyDataCache\<close>, 20 seconds, an observer and a log callback that return, an empty
  store.
\<close>

definition sample_manager :: state where
  "sample_manager =
     \<lparr>key = ''MyDataCache'', expirationSeconds = 20, refreshScheduled = False,
      onBackgroundRefresh = Some (\<lambda>freshData. None), onLog = True,
      localStorage = Map.empty, clock = 1700000000000, callbacks = [], fetch_calls = 0,
      onLog_lines = [], console_lines = [], observed = []\<rparr>"

text \<open>A value of the sample's type \<^verbatim>\<open>IMyData[]\<close>.\<close>

definition sample_data :: jsval where
  "sample_data = JArr [JObj [(''id'', JNum 1), (''value'', JStr ''My Data: 1'')]]"

text \<open>
  The sample after its first \<^verbatim>\<open>getData(false)\<close>, whose fetch took 5000 ms: the entry
  was written at 1700000005000 and expires at 1700000025000.
\<close>

definition sample_loaded :: state where
  "sample_loaded = snd (getData ref_platform False 5000 (Fulfilled sample_data) sample_manager)"

text \<open>The sample's manager over a store that holds the given text under its key.\<close>

definition sample_holding :: "string \<Rightarrow> state" where
  "sample_holding item = sample_manager\<lparr>localStorage := [''MyDataCache'' \<mapsto> item]\<rparr>"

text \<open>The entry of the sample, as the reference platform writes it.\<close>

definition sample_item :: string where
  "sample_item = ref_stringify (cacheEntry (ref_toISOString 1700000025000) sample_data)"

section \<open>Properties\<close>

lemma log_fields:
  "key (log m s) = key s"
  "expirationSeconds (log m s) = expirationSeconds s"
  "refreshScheduled (log m s) = refreshScheduled s"
  "onBackgroundRefresh (log m s) = onBackgroundRefresh s"
  "onLog (log m s) = onLog s"
  "localStorage (log m s) = localStorage s"
  "clock (log m s) = clock s"
  "callbacks (log m s) = callbacks s"
  "fetch_calls (log m s) = fetch_calls s"
  "observed (log m s) = observed s"
  by (simp_all add: log_def)

lemma same_core_refl: "same_core s s"
  by (simp add: same_core_def)

lemma same_core_log: "same_core (log m s) s"
  by (simp add: same_core_def log_fields)

lemma read_entry_core: "same_core (snd (snd (read_entry P item s))) s"
  by (simp add: read_entry_def same_core_log split: option.splits sum.splits)

lemma lookup_core: "same_core (snd (snd (lookup P s))) s"
  by (simp add: lookup_def same_core_refl read_entry_core split: option.splits)

lemma read_entry_hit:
  assumes "JSON_parse P item = Some cj"
    and "get_prop cj ''expiration'' = Inr x"
    and "Date_new P x = Inr e"
    and "get_prop cj ''value'' = Inr v"
  shows "fst (read_entry P item s) = v" and "fst (snd (read_entry P item s)) = e"
  using assms by (simp_all add: read_entry_def split: sum.splits)

lemma lookup_hit:
  assumes "localStorage s (key s) = Some item"
    and "item \<noteq> []"
    and "JSON_parse P item = Some cj"
    and "get_prop cj ''expiration'' = Inr x"
    and "Date_new P x = Inr e"
    and "get_prop cj ''value'' = Inr v"
  shows "\<exists>s2. lookup P s = (v, e, s2) \<and> same_core s2 s"
proof -
  have "lookup P s = read_entry P item s"
    using assms(1,2) by (simp add: lookup_def)
  moreover have "read_entry P item s = (v, e, snd (snd (read_entry P item s)))"
    using read_entry_hit [OF assms(3-6), of s] by (metis prod.collapse)
  ultimately show ?thesis
    using read_entry_core by metis
qed

lemma date_gt_format: "date_gt (Time t) d \<Longrightarrow> \<exists>txt. format P d = Inr txt"
  by (cases d) simp_all

lemma clear_on_reload_fields:
  "key (clear_on_reload r s) = key s"
  "expirationSeconds (clear_on_reload r s) = expirationSeconds s"
  "refreshScheduled (clear_on_reload r s) = refreshScheduled s"
  "clock (clear_on_reload r s) = clock s"
  "callbacks (clear_on_reload r s) = callbacks s"
  "fetch_calls (clear_on_reload r s) = fetch_calls s"
  "localStorage (clear_on_reload r s) = (if r then (localStorage s)(key s := None) else localStorage s)"
  by (simp_all add: clear_on_reload_def log_fields)

lemma scheduleRefresh_fields:
  "key (scheduleRefresh P s) = key s"
  "expirationSeconds (scheduleRefresh P s) = expirationSeconds s"
  "localStorage (scheduleRefresh P s) = localStorage s"
  "clock (scheduleRefresh P s) = clock s"
  "fetch_calls (scheduleRefresh P s) = fetch_calls s"
  "refreshScheduled (scheduleRefresh P s) = True"
  "callbacks (scheduleRefresh P s) =
     (if refreshScheduled s then callbacks s
      else callbacks s @ [if native_idle P then IdleCallback else TimerCallback (clock s + 200)])"
  by (simp_all add: scheduleRefresh_def requestIdleCallbackFn_def)

text \<open>The three ways \<open>getData_begin\<close> ends, by what the lookup found.\<close>

lemma getData_begin_cases:
  assumes "lookup P (clear_on_reload reload s) = (v, e, s2)"
  shows "\<not> truthy v \<Longrightarrow>
           getData_begin P reload s = (Await, s2\<lparr>fetch_calls := Suc (fetch_calls s2)\<rparr>)"
    and "truthy v \<Longrightarrow> \<not> date_gt (Time (clock s2)) e \<Longrightarrow>
           getData_begin P reload s = (Return v, s2)"
    and "truthy v \<Longrightarrow> date_gt (Time (clock s2)) e \<Longrightarrow>
           \<exists>m. getData_begin P reload s = (Return v, scheduleRefresh P (log m s2))"
proof -
  show "\<not> truthy v \<Longrightarrow>
           getData_begin P reload s = (Await, s2\<lparr>fetch_calls := Suc (fetch_calls s2)\<rparr>)"
    by (simp add: getData_begin_def assms)
  show "truthy v \<Longrightarrow> \<not> date_gt (Time (clock s2)) e \<Longrightarrow>
           getData_begin P reload s = (Return v, s2)"
    by (simp add: getData_begin_def assms)
  show "truthy v \<Longrightarrow> date_gt (Time (clock s2)) e \<Longrightarrow>
           \<exists>m. getData_begin P reload s = (Return v, scheduleRefresh P (log m s2))"
  proof -
    assume tv: "truthy v" and gt: "date_gt (Time (clock s2)) e"
    obtain tx where "format P e = Inr tx"
      using date_gt_format [OF gt] by blast
    then show ?thesis
      by (intro exI [of _ "''Cache expired (expired at: '' @ tx
                           @ ''). Scheduling background refresh.''"])
         (simp add: getData_begin_def assms tv gt)
  qed
qed

lemma getData_begin_never_throws: "fst (getData_begin P reload s) \<noteq> Throw x"
proof -
  obtain v e s2 where l: "lookup P (clear_on_reload reload s) = (v, e, s2)"
    by (metis prod.collapse)
  show ?thesis
  proof (cases "truthy v")
    case False
    then show ?thesis using getData_begin_cases(1) [OF l] by simp
  next
    case True
    show ?thesis
    proof (cases "date_gt (Time (clock s2)) e")
      case False
      with True show ?thesis using getData_begin_cases(2) [OF l] by simp
    next
      case gt: True
      obtain m where "getData_begin P reload s = (Return v, scheduleRefresh P (log m s2))"
        using getData_begin_cases(3) [OF l True gt] by blast
      then show ?thesis by simp
    qed
  qed
qed

text \<open>What \<open>getData_begin\<close> never touches, and the only change it makes to the store.\<close>

lemma getData_begin_frame:
  "key (snd (getData_begin P reload s)) = key s"
  "expirationSeconds (snd (getData_begin P reload s)) = expirationSeconds s"
  "clock (snd (getData_begin P reload s)) = clock s"
  "localStorage (snd (getData_begin P reload s)) =
     (if reload then (localStorage s)(key s := None) else localStorage s)"
proof -
  obtain v e s2 where l: "lookup P (clear_on_reload reload s) = (v, e, s2)"
    by (metis prod.collapse)
  have "same_core s2 (clear_on_reload reload s)"
    using lookup_core [of P "clear_on_reload reload s"] by (simp add: l)
  then have f: "key s2 = key s" "expirationSeconds s2 = expirationSeconds s" "clock s2 = clock s"
    "localStorage s2 = (if reload then (localStorage s)(key s := None) else localStorage s)"
    by (simp_all add: same_core_def clear_on_reload_fields)
  have "\<exists>s3. snd (getData_begin P reload s) = s3 \<and> key s3 = key s2
      \<and> expirationSeconds s3 = expirationSeconds s2 \<and> clock s3 = clock s2
      \<and> localStorage s3 = localStorage s2"
  proof (cases "truthy v")
    case False
    then show ?thesis using getData_begin_cases(1) [OF l] by simp
  next
    case True
    show ?thesis
    proof (cases "date_gt (Time (clock s2)) e")
      case False
      with True show ?thesis using getData_begin_cases(2) [OF l] by simp
    next
      case gt: True
      obtain m where "getData_begin P reload s = (Return v, scheduleRefresh P (log m s2))"
        using getData_begin_cases(3) [OF l True gt] by blast
      then show ?thesis by (simp add: scheduleRefresh_fields log_fields)
    qed
  qed
  with f show "key (snd (getData_begin P reload s)) = key s"
    and "expirationSeconds (snd (getData_begin P reload s)) = expirationSeconds s"
    and "clock (snd (getData_begin P reload s)) = clock s"
    and "localStorage (snd (getData_begin P reload s)) =
     (if reload then (localStorage s)(key s := None) else localStorage s)"
    by simp_all
qed

lemma pending_no_new_callback:
  assumes "refreshScheduled s"
  shows "callbacks (snd (getData_begin P reload s)) = callbacks s"
    and "refreshScheduled (snd (getData_begin P reload s))"
proof -
  obtain v e s2 where l: "lookup P (clear_on_reload reload s) = (v, e, s2)"
    by (metis prod.collapse)
  have "same_core s2 (clear_on_reload reload s)"
    using lookup_core [of P "clear_on_reload reload s"] by (simp add: l)
  then have f: "callbacks s2 = callbacks s" "refreshScheduled s2"
    using assms by (simp_all add: same_core_def clear_on_reload_fields)
  have "callbacks (snd (getData_begin P reload s)) = callbacks s2
      \<and> refreshScheduled (snd (getData_begin P reload s))"
  proof (cases "truthy v")
    case False
    then show ?thesis using getData_begin_cases(1) [OF l] f by simp
  next
    case True
    show ?thesis
    proof (cases "date_gt (Time (clock s2)) e")
      case False
      with True show ?thesis using getData_begin_cases(2) [OF l] f by simp
    next
      case gt: True
      obtain m where "getData_begin P reload s = (Return v, scheduleRefresh P (log m s2))"
        using getData_begin_cases(3) [OF l True gt] by blast
      then show ?thesis using f by (simp add: scheduleRefresh_fields log_fields)
    qed
  qed
  with f show "callbacks (snd (getData_begin P reload s)) = callbacks s"
    and "refreshScheduled (snd (getData_begin P reload s))"
    by simp_all
qed

text \<open>A hit: the entry under the key parses, its value is truthy.\<close>

lemma getData_begin_hit:
  assumes "localStorage s (key s) = Some item"
    and "item \<noteq> []"
    and "JSON_parse P item = Some cj"
    and "get_prop cj ''expiration'' = Inr x"
    and "Date_new P x = Inr e"
    and "get_prop cj ''value'' = Inr v"
    and "truthy v"
  shows "fst (getData_begin P False s) = Return v"
    and "fetch_calls (snd (getData_begin P False s)) = fetch_calls s"
    and "refreshScheduled (snd (getData_begin P False s)) =
           (refreshScheduled s \<or> date_gt (Time (clock s)) e)"
    and "callbacks (snd (getData_begin P False s)) =
           (if date_gt (Time (clock s)) e \<and> \<not> refreshScheduled s
            then callbacks s @ [if native_idle P then IdleCallback else TimerCallback (clock s + 200)]
            else callbacks s)"
proof -
  have c: "clear_on_reload False s = s"
    by (simp add: clear_on_reload_def)
  obtain s2 where l: "lookup P (clear_on_reload False s) = (v, e, s2)" and sc: "same_core s2 s"
    using lookup_hit [OF assms(1-6)] c by auto
  have f: "clock s2 = clock s" "callbacks s2 = callbacks s" "fetch_calls s2 = fetch_calls s"
    "refreshScheduled s2 = refreshScheduled s"
    using sc by (simp_all add: same_core_def)
  have "fst (getData_begin P False s) = Return v
      \<and> fetch_calls (snd (getData_begin P False s)) = fetch_calls s
      \<and> refreshScheduled (snd (getData_begin P False s)) =
           (refreshScheduled s \<or> date_gt (Time (clock s)) e)
      \<and> callbacks (snd (getData_begin P False s)) =
           (if date_gt (Time (clock s)) e \<and> \<not> refreshScheduled s
            then callbacks s @ [if native_idle P then IdleCallback else TimerCallback (clock s + 200)]
            else callbacks s)"
  proof (cases "date_gt (Time (clock s2)) e")
    case False
    then show ?thesis
      using getData_begin_cases(2) [OF l assms(7)] f by simp
  next
    case gt: True
    obtain m where "getData_begin P False s = (Return v, scheduleRefresh P (log m s2))"
      using getData_begin_cases(3) [OF l assms(7) gt] by blast
    then show ?thesis
      using gt f by (simp add: scheduleRefresh_fields log_fields)
  qed
  then show "fst (getData_begin P False s) = Return v"
    and "fetch_calls (snd (getData_begin P False s)) = fetch_calls s"
    and "refreshScheduled (snd (getData_begin P False s)) =
           (refreshScheduled s \<or> date_gt (Time (clock s)) e)"
    and "callbacks (snd (getData_begin P False s)) =
           (if date_gt (Time (clock s)) e \<and> \<not> refreshScheduled s
            then callbacks s @ [if native_idle P then IdleCallback else TimerCallback (clock s + 200)]
            else callbacks s)"
    by simp_all
qed

text \<open>A miss: nothing truthy was found.\<close>

lemma getData_begin_miss:
  assumes "\<not> truthy (fst (lookup P (clear_on_reload reload s)))"
  shows "fst (getData_begin P reload s) = Await"
    and "fetch_calls (snd (getData_begin P reload s)) = Suc (fetch_calls s)"
    and "callbacks (snd (getData_begin P reload s)) = callbacks s"
    and "refreshScheduled (snd (getData_begin P reload s)) = refreshScheduled s"
proof -
  obtain v e s2 where l: "lookup P (clear_on_reload reload s) = (v, e, s2)"
    by (metis prod.collapse)
  have "same_core s2 (clear_on_reload reload s)"
    using lookup_core [of P "clear_on_reload reload s"] by (simp add: l)
  then have f: "callbacks s2 = callbacks s" "refreshScheduled s2 = refreshScheduled s"
    "fetch_calls s2 = fetch_calls s"
    by (simp_all add: same_core_def clear_on_reload_fields)
  have g: "getData_begin P reload s = (Await, s2\<lparr>fetch_calls := Suc (fetch_calls s2)\<rparr>)"
    using getData_begin_cases(1) [OF l] assms l by simp
  show "fst (getData_begin P reload s) = Await"
    and "fetch_calls (snd (getData_begin P reload s)) = Suc (fetch_calls s)"
    and "callbacks (snd (getData_begin P reload s)) = callbacks s"
    and "refreshScheduled (snd (getData_begin P reload s)) = refreshScheduled s"
    by (simp_all add: g f)
qed

lemma setCache_written:
  assumes "setCache P v s = Inr s1"
  shows "add_seconds (clock s) (expirationSeconds s) = Time (clock s + expirationSeconds s * 1000)"
    and "localStorage s1 = (localStorage s)(key s \<mapsto>
            JSON_stringify P (cacheEntry (toISOString P (clock s + expirationSeconds s * 1000)) v))"
    and "same_core (s1\<lparr>localStorage := localStorage s\<rparr>) s"
  using assms
  by (auto simp: setCache_def add_seconds_def time_clip_def same_core_def log_fields
           split: date.splits if_splits)

lemma setCache_ok:
  assumes "add_seconds (clock s) (expirationSeconds s) = Time e"
  shows "\<exists>s1. setCache P v s = Inr s1"
  using assms by (simp add: setCache_def)

lemma get_prop_cacheEntry:
  "get_prop (cacheEntry stamp v) ''expiration'' = Inr (JStr stamp)"
  "get_prop (cacheEntry stamp v) ''value'' = Inr v"
  by (simp_all add: cacheEntry_def)

text \<open>
  Claim C1, as amended. An entry written by \<open>setCache\<close> with a TTL of \<open>N\<close> seconds at
  the time \<open>w\<close> (in milliseconds) holds a truthy value that the platform reads back.
  \<^verbatim>\<open>getData(false)\<close> at the time \<open>t\<close> returns the stored value at once, without a
  fetch and without touching the store. It registers no callback when
  \<open>t \<le> w + 1000 * N\<close>; when \<open>w + 1000 * N < t\<close> it registers exactly one callback if
  no refresh is pending, and none if one is pending.
\<close>

theorem expiration_boundary:
  assumes "round_trips P (clock s + expirationSeconds s * 1000) v"
    and "truthy v"
    and "setCache P v s = Inr s1"
  shows "fst (getData_begin P False (s1\<lparr>clock := t\<rparr>)) = Return v
       \<and> callbacks (snd (getData_begin P False (s1\<lparr>clock := t\<rparr>))) =
           (if clock s + expirationSeconds s * 1000 < t \<and> \<not> refreshScheduled s
            then callbacks s @ [if native_idle P then IdleCallback else TimerCallback (t + 200)]
            else callbacks s)
       \<and> refreshScheduled (snd (getData_begin P False (s1\<lparr>clock := t\<rparr>))) =
           (refreshScheduled s \<or> clock s + expirationSeconds s * 1000 < t)
       \<and> fetch_calls (snd (getData_begin P False (s1\<lparr>clock := t\<rparr>))) = fetch_calls s
       \<and> localStorage (snd (getData_begin P False (s1\<lparr>clock := t\<rparr>))) = localStorage s1"
proof -
  let ?e = "clock s + expirationSeconds s * 1000"
  let ?item = "JSON_stringify P (cacheEntry (toISOString P ?e) v)"
  let ?r = "s1\<lparr>clock := t\<rparr>"
  have sc: "same_core (s1\<lparr>localStorage := localStorage s\<rparr>) s"
    and st: "localStorage s1 = (localStorage s)(key s \<mapsto> ?item)"
    using setCache_written [OF assms(3)] by simp_all
  have f: "key s1 = key s" "callbacks s1 = callbacks s" "refreshScheduled s1 = refreshScheduled s"
    "fetch_calls s1 = fetch_calls s"
    using sc by (simp_all add: same_core_def)
  have a: "localStorage ?r (key ?r) = Some ?item"
    by (simp add: st f)
  have b: "?item \<noteq> []" and c: "JSON_parse P ?item = Some (cacheEntry (toISOString P ?e) v)"
    and d: "Date_new P (JStr (toISOString P ?e)) = Inr (Time ?e)"
    using assms(1) by (simp_all add: round_trips_def)
  note h = getData_begin_hit [OF a b c get_prop_cacheEntry(1) d get_prop_cacheEntry(2) assms(2)]
  have "localStorage (snd (getData_begin P False ?r)) = localStorage s1"
    by (simp add: getData_begin_frame)
  with h show ?thesis
    by (simp add: f)
qed

text \<open>The sample one millisecond after and one millisecond before the expiration.\<close>

theorem expiration_boundary_witness:
  "\<exists>s1. setCache ref_platform sample_data (sample_manager\<lparr>clock := 1700000005000\<rparr>) = Inr s1
     \<and> round_trips ref_platform 1700000025000 sample_data
     \<and> truthy sample_data
     \<and> fst (getData_begin ref_platform False (s1\<lparr>clock := 1700000025001\<rparr>)) = Return sample_data
     \<and> callbacks (snd (getData_begin ref_platform False (s1\<lparr>clock := 1700000025001\<rparr>)))
         = [IdleCallback]
     \<and> fst (getData_begin ref_platform False (s1\<lparr>clock := 1700000024999\<rparr>)) = Return sample_data
     \<and> callbacks (snd (getData_begin ref_platform False (s1\<lparr>clock := 1700000024999\<rparr>))) = []"
proof -
  let ?s = "sample_manager\<lparr>clock := 1700000005000\<rparr>"
  have rt: "round_trips ref_platform 1700000025000 sample_data"
    by code_simp
  have rt': "round_trips ref_platform (clock ?s + expirationSeconds ?s * 1000) sample_data"
    using rt by (simp add: sample_manager_def)
  have tv: "truthy sample_data"
    by (simp add: sample_data_def)
  obtain s1 where w: "setCache ref_platform sample_data ?s = Inr s1"
    using setCache_ok [of ?s 1700000025000]
    by (auto simp: sample_manager_def add_seconds_def time_clip_def)
  have ni: "native_idle ref_platform"
    by (simp add: ref_platform_def)
  show ?thesis
    using expiration_boundary [OF rt' tv w, of 1700000025001]
      expiration_boundary [OF rt' tv w, of 1700000024999] rt tv w ni
    by (intro exI [of _ s1]) (simp add: sample_manager_def)
qed

text \<open>
  Claim C1 as stated asks for a refresh at every time \<open>\<ge> w + 1000 * N\<close>. At the time
  \<open>w + 1000 * N\<close> itself, \<^verbatim>\<open>new Date() > expiration\<close> is false: the sample, read
  at 1700000005000 + 20 * 1000, returns the value and registers nothing.
\<close>

theorem boundary_counterexample:
  "localStorage sample_loaded (key sample_loaded) =
     Some (JSON_stringify ref_platform
             (cacheEntry (toISOString ref_platform (1700000005000 + 20 * 1000)) sample_data))
   \<and> fst (getData_begin ref_platform False (sample_loaded\<lparr>clock := 1700000005000 + 20 * 1000\<rparr>))
       = Return sample_data
   \<and> callbacks (snd (getData_begin ref_platform False
                        (sample_loaded\<lparr>clock := 1700000005000 + 20 * 1000\<rparr>))) = []
   \<and> \<not> refreshScheduled (snd (getData_begin ref_platform False
                                  (sample_loaded\<lparr>clock := 1700000005000 + 20 * 1000\<rparr>)))"
  by code_simp

text \<open>
  Claim C2. The entry under the key has expired and its value is truthy. Two calls of
  \<^verbatim>\<open>getData(false)\<close> in succession, \<open>dt\<close> milliseconds apart, both return the
  stale value; after the first the flag is set; the first registers one callback when no
  refresh was pending and none when one was; the second registers none. In general, in
  any state \<open>s'\<close> with the flag set, \<open>scheduleRefresh\<close> does nothing, and a call of
  \<^verbatim>\<open>getData\<close> registers no callback and leaves the flag set.
\<close>

theorem at_most_one_refresh:
  assumes "localStorage s (key s) = Some item"
    and "item \<noteq> []"
    and "JSON_parse P item = Some cj"
    and "get_prop cj ''expiration'' = Inr x"
    and "Date_new P x = Inr (Time e)"
    and "get_prop cj ''value'' = Inr v"
    and "truthy v"
    and "e < clock s"
    and "s1 = snd (getData_begin P False s)"
    and "s2 = snd (getData_begin P False (s1\<lparr>clock := clock s1 + int dt\<rparr>))"
  shows "fst (getData_begin P False s) = Return v
       \<and> fst (getData_begin P False (s1\<lparr>clock := clock s1 + int dt\<rparr>)) = Return v
       \<and> refreshScheduled s1 \<and> refreshScheduled s2
       \<and> callbacks s1 =
           (if refreshScheduled s then callbacks s
            else callbacks s @ [if native_idle P then IdleCallback else TimerCallback (clock s + 200)])
       \<and> callbacks s2 = callbacks s1
       \<and> scheduleRefresh P (s'\<lparr>refreshScheduled := True\<rparr>) = s'\<lparr>refreshScheduled := True\<rparr>
       \<and> callbacks (snd (getData_begin P reload (s'\<lparr>refreshScheduled := True\<rparr>))) = callbacks s'
       \<and> refreshScheduled (snd (getData_begin P reload (s'\<lparr>refreshScheduled := True\<rparr>)))"
proof -
  have p: "refreshScheduled (s'\<lparr>refreshScheduled := True\<rparr>)"
    by simp
  have n: "scheduleRefresh P (s'\<lparr>refreshScheduled := True\<rparr>) = s'\<lparr>refreshScheduled := True\<rparr>"
    "callbacks (snd (getData_begin P reload (s'\<lparr>refreshScheduled := True\<rparr>))) = callbacks s'"
    "refreshScheduled (snd (getData_begin P reload (s'\<lparr>refreshScheduled := True\<rparr>)))"
    using pending_no_new_callback [OF p, of P reload] by (simp_all add: scheduleRefresh_def)
  note h = getData_begin_hit [OF assms(1-7)]
  have r1: "refreshScheduled s1"
    using h(3) assms(8,9) by simp
  have c1: "callbacks s1 =
           (if refreshScheduled s then callbacks s
            else callbacks s @ [if native_idle P then IdleCallback else TimerCallback (clock s + 200)])"
    using h(4) assms(8,9) by simp
  let ?r = "s1\<lparr>clock := clock s1 + int dt\<rparr>"
  have k: "key s1 = key s" "localStorage s1 = localStorage s"
    by (simp_all add: assms(9) getData_begin_frame)
  have a: "localStorage ?r (key ?r) = Some item"
    by (simp add: k assms(1))
  have r: "refreshScheduled ?r"
    using r1 by simp
  have "fst (getData_begin P False ?r) = Return v"
    using getData_begin_hit(1) [OF a assms(2-7)] .
  moreover have "callbacks s2 = callbacks s1" "refreshScheduled s2"
    using pending_no_new_callback [OF r, of P False] assms(10) by simp_all
  ultimately show ?thesis
    using h(1) r1 c1 n by simp
qed

lemma refresh_resume_shape:
  "fst (refresh_resume P r s) = None"
  "\<not> refreshScheduled (snd (refresh_resume P r s))"
  "callbacks (snd (refresh_resume P r s)) = callbacks (snd (refresh_try P r s))"
  by (simp_all add: refresh_resume_def refresh_catch_def console_error_def log_fields
        split: prod.splits option.splits)

lemma refresh_try_callbacks: "callbacks (snd (refresh_try P r s)) = callbacks s"
proof (cases r)
  case (Rejected e)
  then show ?thesis by (simp add: refresh_try_def)
next
  case (Fulfilled d)
  show ?thesis
  proof (cases "setCache P d s")
    case (Inl e)
    with Fulfilled show ?thesis by (simp add: refresh_try_def)
  next
    case (Inr s1)
    have "same_core (s1\<lparr>localStorage := localStorage s\<rparr>) s"
      using setCache_written(3) [OF Inr] .
    then have "callbacks s1 = callbacks s"
      by (simp add: same_core_def)
    with Fulfilled Inr show ?thesis
      by (simp add: refresh_try_def notify_def Let_def log_fields split: option.splits sum.splits)
  qed
qed

text \<open>
  Claim C3. However the fetch of a deferred refresh settles, the callback's promise is
  fulfilled (nothing is thrown to anyone), the flag is false afterwards, and the next
  \<open>scheduleRefresh\<close> registers a callback again. When the fetch fails, the store is
  left as it was, the error is logged (to the log callback or the console, and to
  \<^verbatim>\<open>console.error\<close>), and a later \<^verbatim>\<open>getData\<close> does not throw it.
\<close>

theorem deferred_failure_contained:
  "fst (refresh_resume P r s) = None
   \<and> \<not> refreshScheduled (snd (refresh_resume P r s))
   \<and> callbacks (snd (refresh_resume P r s)) = callbacks s
   \<and> callbacks (scheduleRefresh P (snd (refresh_resume P r s)))
       = callbacks s @ [if native_idle P then IdleCallback
                        else TimerCallback (clock (snd (refresh_resume P r s)) + 200)]
   \<and> localStorage (snd (refresh_resume P (Rejected e) s)) = localStorage s
   \<and> last (console_lines (snd (refresh_resume P (Rejected e) s)))
       = ''Error during background refresh: '' @ error_text e
   \<and> (if onLog s
       then last (onLog_lines (snd (refresh_resume P (Rejected e) s)))
              = ''Error during background refresh: '' @ error_text e
       else console_lines (snd (refresh_resume P (Rejected e) s))
              = console_lines s @ [''Error during background refresh: '' @ error_text e,
                                   ''Error during background refresh: '' @ error_text e])
   \<and> fst (getData_begin P reload (snd (refresh_resume P (Rejected e) s))) \<noteq> Throw e"
proof -
  have a: "callbacks (snd (refresh_resume P r s)) = callbacks s"
    by (simp add: refresh_resume_shape refresh_try_callbacks)
  have b: "localStorage (snd (refresh_resume P (Rejected e) s)) = localStorage s"
    by (simp add: refresh_resume_def refresh_try_def refresh_catch_def console_error_def log_fields)
  have c: "last (console_lines (snd (refresh_resume P (Rejected e) s)))
       = ''Error during background refresh: '' @ error_text e"
    by (simp add: refresh_resume_def refresh_try_def refresh_catch_def console_error_def)
  have d: "(if onLog s
       then last (onLog_lines (snd (refresh_resume P (Rejected e) s)))
              = ''Error during background refresh: '' @ error_text e
       else console_lines (snd (refresh_resume P (Rejected e) s))
              = console_lines s @ [''Error during background refresh: '' @ error_text e,
                                   ''Error during background refresh: '' @ error_text e])"
    by (simp add: refresh_resume_def refresh_try_def refresh_catch_def console_error_def log_def)
  show ?thesis
    using a b c d
    by (simp add: refresh_resume_shape scheduleRefresh_fields getData_begin_never_throws)
qed

text \<open>
  Claim C4. On the synchronous-fetch branch a rejected fetch rejects \<^verbatim>\<open>getData\<close>
  with the same reason and leaves the state as it is. A whole call with a failing fetch
  fails exactly when it reached that branch; the first part of \<^verbatim>\<open>getData\<close> never
  throws; the store afterwards holds no new entry (only a reload's removal); and the
  deferred callback keeps the failure to itself.
\<close>

theorem sync_failure_propagates:
  "getData_resume P (Rejected e) s = (Inl e, s)
   \<and> fst (getData P reload dt (Rejected e) s) =
       (case fst (getData_begin P reload s) of
          Return v \<Rightarrow> Inr v | Throw x \<Rightarrow> Inl x | Await \<Rightarrow> Inl e)
   \<and> fst (getData_begin P reload s) \<noteq> Throw x
   \<and> localStorage (snd (getData P reload dt (Rejected e) s)) =
       (if reload then (localStorage s)(key s := None) else localStorage s)
   \<and> fst (refresh_resume P (Rejected e) s) = None"
proof -
  have a: "getData_resume P (Rejected e) s' = (Inl e, s')" for s'
    by (simp add: getData_resume_def)
  obtain st s1 where g: "getData_begin P reload s = (st, s1)"
    by (metis prod.collapse)
  have l: "localStorage s1 = (if reload then (localStorage s)(key s := None) else localStorage s)"
    using getData_begin_frame(4) [of P reload s] by (simp add: g)
  have "fst (getData P reload dt (Rejected e) s) =
       (case st of Return v \<Rightarrow> Inr v | Throw x \<Rightarrow> Inl x | Await \<Rightarrow> Inl e)"
    by (cases st) (simp_all add: getData_def g a)
  moreover have "localStorage (snd (getData P reload dt (Rejected e) s)) = localStorage s1"
    by (cases st) (simp_all add: getData_def g a)
  ultimately show ?thesis
    using a l by (simp add: g [THEN arg_cong, of fst, simplified] refresh_resume_shape
        getData_begin_never_throws [of P reload s x, unfolded g, simplified])
qed

lemma read_entry_value:
  assumes "JSON_parse P item = Some cj" and "get_prop cj ''value'' = Inr v"
  shows "fst (read_entry P item s) = v \<or> fst (read_entry P item s) = JNull"
  using assms by (simp add: read_entry_def split: sum.splits)


lemma lookup_reload: "fst (lookup P (clear_on_reload True s)) = JNull"
  by (simp add: lookup_def clear_on_reload_def log_fields)


text \<open>A whole call that misses: the result and the store, by how the fetch settles.\<close>

lemma getData_miss:
  assumes "\<not> truthy (fst (lookup P (clear_on_reload reload s)))"
  shows "fst (getData P reload dt r s) =
           (case r of
              Rejected x \<Rightarrow> Inl x
            | Fulfilled d \<Rightarrow>
                (case add_seconds (clock s + int dt) (expirationSeconds s) of
                   InvalidDate \<Rightarrow> Inl RangeError
                 | Time e \<Rightarrow> Inr d))"
    and "localStorage (snd (getData P reload dt r s)) =
           (case r of
              Rejected x \<Rightarrow> (if reload then (localStorage s)(key s := None) else localStorage s)
            | Fulfilled d \<Rightarrow>
                (case add_seconds (clock s + int dt) (expirationSeconds s) of
                   InvalidDate \<Rightarrow> (if reload then (localStorage s)(key s := None) else localStorage s)
                 | Time e \<Rightarrow>
                     (localStorage s)(key s \<mapsto> JSON_stringify P (cacheEntry (toISOString P e) d))))"
proof -
  obtain st s1 where g: "getData_begin P reload s = (st, s1)"
    by (metis prod.collapse)
  have st: "st = Await"
    using getData_begin_miss(1) [OF assms] by (simp add: g)
  have f: "key s1 = key s" "expirationSeconds s1 = expirationSeconds s" "clock s1 = clock s"
    "localStorage s1 = (if reload then (localStorage s)(key s := None) else localStorage s)"
    using getData_begin_frame [of P reload s] by (simp_all add: g)
  have run: "getData P reload dt r s = getData_resume P r (s1\<lparr>clock := clock s + int dt\<rparr>)"
    by (simp add: getData_def g st f)
  show "fst (getData P reload dt r s) =
           (case r of
              Rejected x \<Rightarrow> Inl x
            | Fulfilled d \<Rightarrow>
                (case add_seconds (clock s + int dt) (expirationSeconds s) of
                   InvalidDate \<Rightarrow> Inl RangeError
                 | Time e \<Rightarrow> Inr d))"
    by (simp add: run getData_resume_def setCache_def f split: settled.splits date.splits)
  show "localStorage (snd (getData P reload dt r s)) =
           (case r of
              Rejected x \<Rightarrow> (if reload then (localStorage s)(key s := None) else localStorage s)
            | Fulfilled d \<Rightarrow>
                (case add_seconds (clock s + int dt) (expirationSeconds s) of
                   InvalidDate \<Rightarrow> (if reload then (localStorage s)(key s := None) else localStorage s)
                 | Time e \<Rightarrow>
                     (localStorage s)(key s \<mapsto> JSON_stringify P (cacheEntry (toISOString P e) d))))"
    by (simp add: run getData_resume_def setCache_def f log_fields split: settled.splits date.splits)
qed

text \<open>
  Claim C5. The item under the key parses and its \<^verbatim>\<open>value\<close> is falsy. Whatever its
  expiration, \<^verbatim>\<open>getData(false)\<close> invokes the fetch and awaits it, registers no
  callback, and, when the fetch is fulfilled with \<open>d\<close> (and the new expiration is a
  date), returns \<open>d\<close> and overwrites the entry with one for \<open>d\<close>.
\<close>

theorem falsy_value_is_miss:
  assumes "localStorage s (key s) = Some item"
    and "JSON_parse P item = Some cj"
    and "get_prop cj ''value'' = Inr v"
    and "\<not> truthy v"
    and "add_seconds (clock s + int dt) (expirationSeconds s) = Time e"
  shows "fst (getData_begin P False s) = Await
       \<and> fetch_calls (snd (getData_begin P False s)) = Suc (fetch_calls s)
       \<and> callbacks (snd (getData_begin P False s)) = callbacks s
       \<and> fst (getData P False dt (Fulfilled d) s) = Inr d
       \<and> localStorage (snd (getData P False dt (Fulfilled d) s)) =
           (localStorage s)(key s \<mapsto> JSON_stringify P (cacheEntry (toISOString P e) d))"
proof -
  have c: "clear_on_reload False s = s"
    by (simp add: clear_on_reload_def)
  have "fst (lookup P s) = v \<or> fst (lookup P s) = JNull"
    using assms(1) read_entry_value [OF assms(2,3)] by (simp add: lookup_def)
  then have m: "\<not> truthy (fst (lookup P (clear_on_reload False s)))"
    using assms(4) c by auto
  show ?thesis
    using getData_begin_miss [OF m] getData_miss [OF m, of dt "Fulfilled d"] assms(5)
    by simp
qed


text \<open>
  Claim C7. Whatever the store holds, \<^verbatim>\<open>getData(true)\<close> first removes the item under
  the key, then invokes the fetch and awaits it; its result is the value the fetch is
  fulfilled with (or the failure of the fetch or of the write), and so does not depend on
  what was stored.
\<close>

theorem reload_fetches_fresh:
  "localStorage (snd (getData_begin P True s)) = (localStorage s)(key s := None)
   \<and> fst (getData_begin P True s) = Await
   \<and> fetch_calls (snd (getData_begin P True s)) = Suc (fetch_calls s)
   \<and> callbacks (snd (getData_begin P True s)) = callbacks s
   \<and> fst (getData P True dt r s) =
       (case r of
          Rejected x \<Rightarrow> Inl x
        | Fulfilled d \<Rightarrow>
            (case add_seconds (clock s + int dt) (expirationSeconds s) of
               InvalidDate \<Rightarrow> Inl RangeError
             | Time e \<Rightarrow> Inr d))
   \<and> fst (getData P True dt r (s\<lparr>localStorage := store\<rparr>)) = fst (getData P True dt r s)"
proof -
  have m: "\<not> truthy (fst (lookup P (clear_on_reload True s')))" for s'
    by (simp add: lookup_reload)
  have "fst (getData P True dt r (s\<lparr>localStorage := store\<rparr>)) = fst (getData P True dt r s)"
    by (simp add: getData_miss(1) [OF m] split: settled.splits date.splits)
  then show ?thesis
    using getData_begin_miss [OF m, of s] getData_miss(1) [OF m, of dt r s]
    by (simp add: getData_begin_frame)
qed

lemma updateExpiration_fields:
  "key (updateExpiration n s) = key s"
  "expirationSeconds (updateExpiration n s) = n"
  "refreshScheduled (updateExpiration n s) = refreshScheduled s"
  "localStorage (updateExpiration n s) = localStorage s"
  "clock (updateExpiration n s) = clock s"
  "callbacks (updateExpiration n s) = callbacks s"
  "fetch_calls (updateExpiration n s) = fetch_calls s"
  by (simp_all add: updateExpiration_def log_fields)

text \<open>The lookup reads the key, the store and the clock, and nothing else of the state.\<close>

lemma read_entry_reads:
  assumes "clock a = clock b"
  shows "fst (read_entry P item a) = fst (read_entry P item b)"
    and "fst (snd (read_entry P item a)) = fst (snd (read_entry P item b))"
  using assms by (simp_all add: read_entry_def split: option.splits sum.splits)

lemma lookup_reads:
  assumes "key a = key b" and "localStorage a = localStorage b" and "clock a = clock b"
  shows "fst (lookup P a) = fst (lookup P b)"
    and "fst (snd (lookup P a)) = fst (snd (lookup P b))"
  using assms read_entry_reads [OF assms(3)]
  by (simp_all add: lookup_def split: option.splits)

lemma getData_begin_reads:
  assumes "key a = key b" and "localStorage a = localStorage b" and "clock a = clock b"
  shows "fst (getData_begin P reload a) = fst (getData_begin P reload b)"
proof -
  let ?a = "clear_on_reload reload a" and ?b = "clear_on_reload reload b"
  have k: "key ?a = key ?b" "localStorage ?a = localStorage ?b" "clock ?a = clock ?b"
    using assms by (simp_all add: clear_on_reload_fields)
  obtain va ea sa where la: "lookup P ?a = (va, ea, sa)" by (metis prod.collapse)
  obtain vb eb sb where lb: "lookup P ?b = (vb, eb, sb)" by (metis prod.collapse)
  have eq: "va = vb" "ea = eb"
    using lookup_reads [OF k, of P] by (simp_all add: la lb)
  have "same_core sa ?a" "same_core sb ?b"
    using lookup_core [of P ?a] lookup_core [of P ?b] by (simp_all add: la lb)
  then have c: "clock sa = clock sb"
    using k by (simp add: same_core_def)
  show ?thesis
  proof (cases "truthy va")
    case False
    then show ?thesis
      using getData_begin_cases(1) [OF la] getData_begin_cases(1) [OF lb] eq by simp
  next
    case True
    show ?thesis
    proof (cases "date_gt (Time (clock sa)) ea")
      case False
      then show ?thesis
        using True getData_begin_cases(2) [OF la] getData_begin_cases(2) [OF lb] eq c by simp
    next
      case gt: True
      obtain m where "getData_begin P reload a = (Return va, scheduleRefresh P (log m sa))"
        using getData_begin_cases(3) [OF la True gt] by blast
      moreover obtain m' where "getData_begin P reload b = (Return vb, scheduleRefresh P (log m' sb))"
        using getData_begin_cases(3) [OF lb] True gt eq c by auto
      ultimately show ?thesis using eq by simp
    qed
  qed
qed

text \<open>
  Claim C8. \<open>updateExpiration\<close> changes the TTL (and logs): the store, with any entry
  and its expiration, the key, the clock, the flag and the queue are as before, and a
  \<^verbatim>\<open>getData\<close> that follows returns what it would have returned. The next
  \<open>setCache\<close> writes an entry whose expiration is the write time plus the new TTL.
\<close>

theorem ttl_update_not_retroactive:
  "localStorage (updateExpiration n s) = localStorage s
   \<and> expirationSeconds (updateExpiration n s) = n
   \<and> key (updateExpiration n s) = key s
   \<and> clock (updateExpiration n s) = clock s
   \<and> refreshScheduled (updateExpiration n s) = refreshScheduled s
   \<and> callbacks (updateExpiration n s) = callbacks s
   \<and> fst (getData_begin P reload (updateExpiration n s)) = fst (getData_begin P reload s)
   \<and> (case setCache P d (updateExpiration n s) of
         Inl x \<Rightarrow> add_seconds (clock s) n = InvalidDate
       | Inr s1 \<Rightarrow>
           add_seconds (clock s) n = Time (clock s + n * 1000)
           \<and> localStorage s1 =
               (localStorage s)(key s \<mapsto>
                  JSON_stringify P (cacheEntry (toISOString P (clock s + n * 1000)) d)))"
proof -
  have "fst (getData_begin P reload (updateExpiration n s)) = fst (getData_begin P reload s)"
    by (rule getData_begin_reads) (simp_all add: updateExpiration_fields)
  moreover have "case setCache P d (updateExpiration n s) of
         Inl x \<Rightarrow> add_seconds (clock s) n = InvalidDate
       | Inr s1 \<Rightarrow>
           add_seconds (clock s) n = Time (clock s + n * 1000)
           \<and> localStorage s1 =
               (localStorage s)(key s \<mapsto>
                  JSON_stringify P (cacheEntry (toISOString P (clock s + n * 1000)) d))"
  proof (cases "setCache P d (updateExpiration n s)")
    case (Inl x)
    then show ?thesis
      by (simp add: setCache_def updateExpiration_fields split: date.splits)
  next
    case (Inr s1)
    show ?thesis
      using setCache_written(1,2) [OF Inr] by (simp add: Inr updateExpiration_fields)
  qed
  ultimately show ?thesis
    by (simp add: updateExpiration_fields)
qed

text \<open>
  Claim C9. \<open>setCache\<close> wrote the truthy value \<open>v\<close>, which the platform reads back.
  In any later state whose store still holds that item under the key and whose clock has
  not passed the entry's expiration, \<^verbatim>\<open>getData(false)\<close> returns \<open>v\<close>, with no fetch
  and no callback, whatever a fetch would have given.
\<close>

theorem write_then_read:
  assumes "round_trips P (clock s + expirationSeconds s * 1000) v"
    and "truthy v"
    and "setCache P v s = Inr s1"
    and "key s2 = key s"
    and "localStorage s2 (key s) = localStorage s1 (key s)"
    and "clock s2 \<le> clock s + expirationSeconds s * 1000"
  shows "fst (getData P False dt r s2) = Inr v
       \<and> fetch_calls (snd (getData P False dt r s2)) = fetch_calls s2
       \<and> callbacks (snd (getData P False dt r s2)) = callbacks s2
       \<and> localStorage (snd (getData P False dt r s2)) = localStorage s2"
proof -
  let ?e = "clock s + expirationSeconds s * 1000"
  let ?item = "JSON_stringify P (cacheEntry (toISOString P ?e) v)"
  have a: "localStorage s2 (key s2) = Some ?item"
    using setCache_written(2) [OF assms(3)] assms(4,5) by simp
  have b: "?item \<noteq> []" and c: "JSON_parse P ?item = Some (cacheEntry (toISOString P ?e) v)"
    and d: "Date_new P (JStr (toISOString P ?e)) = Inr (Time ?e)"
    using assms(1) by (simp_all add: round_trips_def)
  note h = getData_begin_hit [OF a b c get_prop_cacheEntry(1) d get_prop_cacheEntry(2) assms(2)]
  obtain st s3 where g: "getData_begin P False s2 = (st, s3)"
    by (metis prod.collapse)
  have "st = Return v" "fetch_calls s3 = fetch_calls s2" "callbacks s3 = callbacks s2"
    using h assms(6) by (simp_all add: g)
  moreover have "localStorage s3 = localStorage s2"
    using getData_begin_frame(4) [of P False s2] by (simp add: g)
  ultimately show ?thesis
    by (simp add: getData_def g)
qed

lemma read_entry_invalid_date:
  assumes "JSON_parse P item = Some cj"
    and "get_prop cj ''expiration'' = Inr x"
    and "Date_new P x = Inr InvalidDate"
    and "get_prop cj ''value'' = Inr v"
  shows "read_entry P item s = (v, InvalidDate, log ''Invalid cache found.'' s)"
  using assms by (simp add: read_entry_def)

text \<open>
  Claim C10. The item under the key parses, its value is truthy, and \<^verbatim>\<open>new Date\<close> of
  its expiration is the Invalid Date. At every time \<open>t\<close>, \<^verbatim>\<open>getData(false)\<close> returns
  the stored value and changes nothing but the log (where \<^verbatim>\<open>format\<close> throwing on the
  Invalid Date leaves the line \<^verbatim>\<open>Invalid cache found.\<close>): no callback, no flag, no
  fetch, no write.
\<close>

theorem invalid_expiration_never_expires:
  assumes "localStorage s (key s) = Some item"
    and "item \<noteq> []"
    and "JSON_parse P item = Some cj"
    and "get_prop cj ''expiration'' = Inr x"
    and "Date_new P x = Inr InvalidDate"
    and "get_prop cj ''value'' = Inr v"
    and "truthy v"
  shows "getData_begin P False (s\<lparr>clock := t\<rparr>) =
           (Return v, log ''Invalid cache found.'' (s\<lparr>clock := t\<rparr>))
       \<and> callbacks (snd (getData_begin P False (s\<lparr>clock := t\<rparr>))) = callbacks s
       \<and> refreshScheduled (snd (getData_begin P False (s\<lparr>clock := t\<rparr>))) = refreshScheduled s
       \<and> fetch_calls (snd (getData_begin P False (s\<lparr>clock := t\<rparr>))) = fetch_calls s
       \<and> localStorage (snd (getData_begin P False (s\<lparr>clock := t\<rparr>))) = localStorage s
       \<and> fst (getData P False dt r (s\<lparr>clock := t\<rparr>)) = Inr v"
proof -
  let ?s = "s\<lparr>clock := t\<rparr>"
  have "lookup P (clear_on_reload False ?s) = (v, InvalidDate, log ''Invalid cache found.'' ?s)"
    using assms(1,2) read_entry_invalid_date [OF assms(3-6)]
    by (simp add: lookup_def clear_on_reload_def)
  then have g: "getData_begin P False ?s = (Return v, log ''Invalid cache found.'' ?s)"
    using assms(7) by (simp add: getData_begin_def)
  show ?thesis
    by (simp add: g getData_def log_fields)
qed

lemma sample_item_facts:
  "sample_item \<noteq> []"
  "JSON_parse ref_platform sample_item
     = Some (cacheEntry (ref_toISOString 1700000025000) sample_data)"
  "Date_new ref_platform (JStr (ref_toISOString 1700000025000)) = Inr (Time 1700000025000)"
  by code_simp+

text \<open>The sample, five seconds after its entry expired, read twice one millisecond apart.\<close>

theorem at_most_one_refresh_witness:
  "fst (getData_begin ref_platform False (sample_holding sample_item\<lparr>clock := 1700000030000\<rparr>))
     = Return sample_data
   \<and> callbacks (snd (getData_begin ref_platform False
                       (sample_holding sample_item\<lparr>clock := 1700000030000\<rparr>))) = [IdleCallback]
   \<and> callbacks (snd (getData_begin ref_platform False
        (snd (getData_begin ref_platform False (sample_holding sample_item\<lparr>clock := 1700000030000\<rparr>))
           \<lparr>clock := clock (snd (getData_begin ref_platform False
                                  (sample_holding sample_item\<lparr>clock := 1700000030000\<rparr>))) + 1\<rparr>)))
       = [IdleCallback]"
proof -
  let ?s = "sample_holding sample_item\<lparr>clock := 1700000030000\<rparr>"
  have h1: "localStorage ?s (key ?s) = Some sample_item"
    by (simp add: sample_holding_def sample_manager_def)
  have h7: "truthy sample_data"
    by (simp add: sample_data_def)
  have h8: "1700000025000 < clock ?s"
    by simp
  have f: "\<not> refreshScheduled ?s" "callbacks ?s = []" "native_idle ref_platform"
    by (simp_all add: sample_holding_def sample_manager_def ref_platform_def)
  show ?thesis
    using at_most_one_refresh [OF h1 sample_item_facts(1,2) get_prop_cacheEntry(1)
        sample_item_facts(3) get_prop_cacheEntry(2) h7 h8 refl refl, where dt = 1] f
    by simp
qed

text \<open>The sample over an unexpired entry whose value is \<^verbatim>\<open>0\<close>.\<close>

theorem falsy_value_is_miss_witness:
  "JSON_parse ref_platform (ref_stringify (cacheEntry (ref_toISOString 1700000025000) (JNum 0)))
     = Some (cacheEntry (ref_toISOString 1700000025000) (JNum 0))
   \<and> \<not> truthy (JNum 0)
   \<and> fst (getData_begin ref_platform False
             (sample_holding (ref_stringify (cacheEntry (ref_toISOString 1700000025000) (JNum 0)))))
       = Await
   \<and> fst (getData ref_platform False 5000 (Fulfilled sample_data)
             (sample_holding (ref_stringify (cacheEntry (ref_toISOString 1700000025000) (JNum 0)))))
       = Inr sample_data
   \<and> localStorage (snd (getData ref_platform False 5000 (Fulfilled sample_data)
             (sample_holding (ref_stringify (cacheEntry (ref_toISOString 1700000025000) (JNum 0))))))
         ''MyDataCache''
       = Some sample_item"
proof -
  let ?item = "ref_stringify (cacheEntry (ref_toISOString 1700000025000) (JNum 0))"
  let ?s = "sample_holding ?item"
  have h1: "localStorage ?s (key ?s) = Some ?item"
    by (simp add: sample_holding_def sample_manager_def)
  have h2: "JSON_parse ref_platform ?item = Some (cacheEntry (ref_toISOString 1700000025000) (JNum 0))"
    by code_simp
  have h4: "\<not> truthy (JNum 0)"
    by simp
  have h5: "add_seconds (clock ?s + int 5000) (expirationSeconds ?s) = Time 1700000025000"
    by (simp add: sample_holding_def sample_manager_def add_seconds_def time_clip_def)
  have k: "key ?s = ''MyDataCache''" "toISOString ref_platform = ref_toISOString"
    "JSON_stringify ref_platform = ref_stringify"
    by (simp_all add: sample_holding_def sample_manager_def ref_platform_def)
  show ?thesis
    using falsy_value_is_miss [OF h1 h2 get_prop_cacheEntry(2) h4 h5, of sample_data] h2 h4
    by (simp add: k sample_item_def)
qed


text \<open>The sample's entry read back at the last millisecond of its life, while the fetch would fail.\<close>

theorem write_then_read_witness:
  "\<exists>s1. setCache ref_platform sample_data (sample_manager\<lparr>clock := 1700000005000\<rparr>) = Inr s1
     \<and> round_trips ref_platform 1700000025000 sample_data
     \<and> truthy sample_data
     \<and> fst (getData ref_platform False 5000 (Rejected (Reason ''offline''))
               (updateExpiration 1 (s1\<lparr>clock := 1700000025000\<rparr>))) = Inr sample_data"
proof -
  let ?s = "sample_manager\<lparr>clock := 1700000005000\<rparr>"
  have rt: "round_trips ref_platform 1700000025000 sample_data"
    by code_simp
  have rt': "round_trips ref_platform (clock ?s + expirationSeconds ?s * 1000) sample_data"
    using rt by (simp add: sample_manager_def)
  have tv: "truthy sample_data"
    by (simp add: sample_data_def)
  obtain s1 where w: "setCache ref_platform sample_data ?s = Inr s1"
    using setCache_ok [of ?s 1700000025000]
    by (auto simp: sample_manager_def add_seconds_def time_clip_def)
  let ?s2 = "updateExpiration 1 (s1\<lparr>clock := 1700000025000\<rparr>)"
  have "same_core (s1\<lparr>localStorage := localStorage ?s\<rparr>) ?s"
    using setCache_written(3) [OF w] .
  then have k: "key ?s2 = key ?s"
    by (simp add: same_core_def updateExpiration_fields)
  have l: "localStorage ?s2 (key ?s) = localStorage s1 (key ?s)"
    by (simp add: updateExpiration_fields)
  have c: "clock ?s2 \<le> clock ?s + expirationSeconds ?s * 1000"
    by (simp add: updateExpiration_fields sample_manager_def)
  show ?thesis
    using write_then_read [OF rt' tv w k l c, of 5000 "Rejected (Reason ''offline'')"] rt tv w
    by (intro exI [of _ s1]) simp
qed

text \<open>The sample over an entry whose expiration is the text \<^verbatim>\<open>soon\<close>, read very late.\<close>

theorem invalid_expiration_never_expires_witness:
  "Date_new ref_platform (JStr ''soon'') = Inr InvalidDate
   \<and> fst (getData_begin ref_platform False
             (sample_holding (ref_stringify (cacheEntry ''soon'' sample_data))
                \<lparr>clock := 8640000000000000\<rparr>)) = Return sample_data
   \<and> callbacks (snd (getData_begin ref_platform False
             (sample_holding (ref_stringify (cacheEntry ''soon'' sample_data))
                \<lparr>clock := 8640000000000000\<rparr>))) = []
   \<and> onLog_lines (snd (getData_begin ref_platform False
             (sample_holding (ref_stringify (cacheEntry ''soon'' sample_data))
                \<lparr>clock := 8640000000000000\<rparr>))) = [''Invalid cache found.'']"
proof -
  let ?item = "ref_stringify (cacheEntry ''soon'' sample_data)"
  let ?s = "sample_holding ?item"
  have h1: "localStorage ?s (key ?s) = Some ?item"
    by (simp add: sample_holding_def sample_manager_def)
  have h2: "?item \<noteq> []"
    and h3: "JSON_parse ref_platform ?item = Some (cacheEntry ''soon'' sample_data)"
    and h5: "Date_new ref_platform (JStr ''soon'') = Inr InvalidDate"
    by code_simp+
  have h7: "truthy sample_data"
    by (simp add: sample_data_def)
  have f: "callbacks ?s = []" "onLog ?s" "onLog_lines ?s = []"
    by (simp_all add: sample_holding_def sample_manager_def)
  show ?thesis
    using invalid_expiration_never_expires [OF h1 h2 h3 get_prop_cacheEntry(1) h5
        get_prop_cacheEntry(2) h7, of 8640000000000000] h5 f
    by (simp add: log_def)
qed

end
